theory Spec2Isabelle
  imports Main
begin

section \<open>The streaming server of \<^verbatim>\<open>server.js\<close>\<close>

text \<open>
  \<^verbatim>\<open>server.js\<close> is one Node event loop. Everything it does happens in a handler that
  runs to completion: a socket connects or disconnects, a control message arrives, the
  animation produces a tick, \<^verbatim>\<open>driver.fetchData\<close> delivers its result, or an HTTP
  request reaches \<^verbatim>\<open>/vbo\<close>. The model is one function per handler over an explicit
  server state, and \<open>run\<close> folds a list of such events.

  The Rx operators are modelled by what they do in this program:
  \<^item> \<^verbatim>\<open>ticksMulti = animStep.ticks.publish()\<close> is a hot stream without memory: a
    subscriber sees the ticks produced after it subscribed;
  \<^item> \<^verbatim>\<open>graph = new Rx.ReplaySubject(1)\<close> fed by \<^verbatim>\<open>ticksMulti.take(1)\<close> holds the
    first tick once it exists and replays it to every later subscriber;
  \<^item> \<^verbatim>\<open>clientReady = new Rx.ReplaySubject(1)\<close> is a boolean cell whose last value is
    replayed on subscription;
  \<^item> \<^verbatim>\<open>graph.expand(f)\<close> applies \<open>f\<close> to the value of \<open>graph\<close> and again to every value
    \<open>f\<close> produces, which gives the per-client loop.

  The external collaborators are inputs: the buffer and program names the renderer
  returns come with the connection, the result of \<^verbatim>\<open>driver.fetchData\<close> comes with the
  event that delivers it (one result per call).

  Left out: the \<^verbatim>\<open>debug\<close> lines that carry no stage number, \<^verbatim>\<open>vboSizeMB\<close> (a
  floating-point figure printed by one of them), the acknowledgement callback of
  \<^verbatim>\<open>socket.emit\<close> (it sets two timing variables that debug lines print), the static
  file server, and a failure of \<^verbatim>\<open>driver.fetchData\<close>.
\<close>

subsection \<open>Data\<close>

type_synonym client_id = string
type_synonym buffer_name = string
type_synonym bytes = "nat list"
type_synonym tick = nat

text \<open>The value \<^verbatim>\<open>driver.fetchData\<close> produces, with the fields the server reads.\<close>

record vbos =
  compressed :: "buffer_name \<rightharpoonup> bytes"
  bufferByteLengths :: "(buffer_name \<times> nat) list"
  elements :: "(string \<times> nat) list"

datatype js_error = TypeError

text \<open>
  Where the pipeline of one client is suspended. The closure variable \<^verbatim>\<open>graph\<close> of the
  function given to \<^verbatim>\<open>expand\<close> travels with it; stage 3 runs to its end in one handler
  and leaves the pipeline subscribed to the \<^verbatim>\<open>sendingAllBuffers\<close> subject it created,
  which is named by its allocation number.
\<close>

datatype stage =
    AWAITING_GRAPH
  | FETCHING tick
  | AWAITING_READY tick vbos
  | AWAITING_BARRIER tick nat
  | AWAITING_NEXT_TICK tick

text \<open>The numbered \<^verbatim>\<open>debug\<close> lines of the client event loop.\<close>

datatype debug_line =
    D1_Prefetch_VBOs
  | D2_Waiting_for_client
  | D2b_Client_ready
  | D3_tell_client
  | D3a_sending_a_buffer buffer_name
  | D3b_started_sending_all
  | D3c_All_in_transit
  | D4_Wait_for_next_anim_step
  | D4b_next_ready

text \<open>What a client's closures do to the outside, in program order.\<close>

datatype out_event =
    Debug debug_line
  | FetchData tick "buffer_name list" "string list"
  | Emit_vbo_update "(buffer_name \<times> nat) list" "(string \<times> nat) list"

text \<open>The variables of one \<^verbatim>\<open>io.on("connection", ...)\<close> closure.\<close>

record session =
  activeBuffers :: "buffer_name list"
  activePrograms :: "string list"
  clientReady :: bool
  stage :: stage
  trace :: "out_event list"

text \<open>
  The closure stored in \<^verbatim>\<open>finishBufferTransfers[socket.id]\<close>: its own
  \<^verbatim>\<open>transferredBuffers\<close> array and \<^verbatim>\<open>sendingAllBuffers\<close> subject, and the
  \<^verbatim>\<open>activeBuffers\<close> of the connection it was created in.
\<close>

record barrier =
  transferredBuffers :: "buffer_name list"
  closureActiveBuffers :: "buffer_name list"
  sendingAllBuffers :: nat

text \<open>
  The module-level state: the two maps keyed by socket id, the replay cell \<^verbatim>\<open>graph\<close>,
  the live connection closures, and the number of subjects stage 3 has created so far.
\<close>

record server =
  lastCompressedVbos :: "client_id \<rightharpoonup> (buffer_name \<rightharpoonup> bytes)"
  finishBufferTransfers :: "client_id \<rightharpoonup> barrier"
  graph :: "tick option"
  sessions :: "client_id \<rightharpoonup> session"
  subjects :: nat

definition init :: server where
  "init = \<lparr>lastCompressedVbos = Map.empty, finishBufferTransfers = Map.empty,
           graph = None, sessions = Map.empty, subjects = 0\<rparr>"

definition upd_session :: "client_id \<Rightarrow> (session \<Rightarrow> session) \<Rightarrow> server \<Rightarrow> server" where
  "upd_session cid f s =
     (case sessions s cid of
        None \<Rightarrow> s
      | Some c \<Rightarrow> s\<lparr>sessions := (sessions s)(cid \<mapsto> f c)\<rparr>)"

subsection \<open>The client event loop (lines 132-194)\<close>

text \<open>Lines 134-135: the function given to \<^verbatim>\<open>expand\<close> is applied to a graph value.\<close>

definition start_fetch :: "tick \<Rightarrow> session \<Rightarrow> session" where
  "start_fetch g c =
     c\<lparr>stage := FETCHING g,
       trace := trace c @ [Debug D1_Prefetch_VBOs, FetchData g (activeBuffers c) (activePrograms c)]\<rparr>"

text \<open>
  Lines 186-191, entered when the subject \<open>k\<close> fires: \<^verbatim>\<open>take(1)\<close> of the subject lets the
  pipeline through if it is the one subscribed to \<open>k\<close>, and stage 4 subscribes to the live
  tick stream.
\<close>

definition sendingAllBuffers_onNext :: "client_id \<Rightarrow> nat \<Rightarrow> server \<Rightarrow> server" where
  "sendingAllBuffers_onNext cid k s =
     upd_session cid
       (\<lambda>c. case stage c of
               AWAITING_BARRIER g k' \<Rightarrow>
                 if k' = k
                 then c\<lparr>stage := AWAITING_NEXT_TICK g,
                        trace := trace c @ [Debug D3c_All_in_transit, Debug D4_Wait_for_next_anim_step]\<rparr>
                 else c
             | _ \<Rightarrow> c) s"

text \<open>Lines 160-170: the function stored in \<^verbatim>\<open>finishBufferTransfers[socket.id]\<close>.\<close>

definition finish_transfer :: "client_id \<Rightarrow> barrier \<Rightarrow> buffer_name \<Rightarrow> server \<Rightarrow> server" where
  "finish_transfer cid b bufferName s =
     (let tb = transferredBuffers b @ [bufferName];
          s1 = upd_session cid (\<lambda>c. c\<lparr>trace := trace c @ [Debug (D3a_sending_a_buffer bufferName)]\<rparr>) s;
          s2 = s1\<lparr>finishBufferTransfers := (finishBufferTransfers s1)(cid \<mapsto> b\<lparr>transferredBuffers := tb\<rparr>)\<rparr>
      in if length tb = length (closureActiveBuffers b)
         then sendingAllBuffers_onNext cid (sendingAllBuffers b)
                (upd_session cid (\<lambda>c. c\<lparr>trace := trace c @ [Debug D3b_started_sending_all]\<rparr>) s2)
         else s2)"

text \<open>
  Lines 152-185, stage 3: a new subject and a new \<^verbatim>\<open>transferredBuffers\<close> array, the
  callback stored under the socket id, \<^verbatim>\<open>vbo_update\<close> emitted with the two picked
  fields, and the pipeline left waiting on the new subject.
\<close>

definition notifying :: "client_id \<Rightarrow> tick \<Rightarrow> vbos \<Rightarrow> server \<Rightarrow> server" where
  "notifying cid g v s =
     (case sessions s cid of
        None \<Rightarrow> s
      | Some c \<Rightarrow>
          s\<lparr>finishBufferTransfers := (finishBufferTransfers s)(cid \<mapsto>
               \<lparr>transferredBuffers = [], closureActiveBuffers = activeBuffers c,
                sendingAllBuffers = subjects s\<rparr>),
            sessions := (sessions s)(cid \<mapsto>
               c\<lparr>stage := AWAITING_BARRIER g (subjects s),
                 trace := trace c @ [Debug D3_tell_client,
                                     Emit_vbo_update (bufferByteLengths v) (elements v)]\<rparr>),
            subjects := Suc (subjects s)\<rparr>)"

text \<open>
  Lines 146-150, the moment \<^verbatim>\<open>clientReady.filter(_.identity).take(1)\<close> delivers
  \<^verbatim>\<open>true\<close>: the latch is set to \<^verbatim>\<open>false\<close> and stage 3 runs with the carried vbos.
\<close>

definition client_ready_proceed :: "client_id \<Rightarrow> tick \<Rightarrow> vbos \<Rightarrow> server \<Rightarrow> server" where
  "client_ready_proceed cid g v s =
     notifying cid g v
       (upd_session cid (\<lambda>c. c\<lparr>clientReady := False, trace := trace c @ [Debug D2b_Client_ready]\<rparr>) s)"

text \<open>
  Lines 141-151, stage 2: subscribing to the replay cell delivers its last value at once;
  a \<^verbatim>\<open>false\<close> is filtered out and the pipeline stays subscribed.
\<close>

definition awaiting_ready :: "client_id \<Rightarrow> tick \<Rightarrow> vbos \<Rightarrow> server \<Rightarrow> server" where
  "awaiting_ready cid g v s =
     (case sessions s cid of
        None \<Rightarrow> s
      | Some c \<Rightarrow>
          (let s1 = upd_session cid (\<lambda>c. c\<lparr>trace := trace c @ [Debug D2_Waiting_for_client]\<rparr>) s
           in if clientReady c then client_ready_proceed cid g v s1
              else upd_session cid (\<lambda>c. c\<lparr>stage := AWAITING_READY g v\<rparr>) s1))"

text \<open>
  Lines 136-140 and on: \<^verbatim>\<open>driver.fetchData\<close> delivers \<open>v\<close> to a pipeline that is
  fetching. The \<^verbatim>\<open>do\<close> block stores \<^verbatim>\<open>vbos.compressed\<close> under the socket id, then
  stage 2 is entered. A delivery to a pipeline that is not fetching does not occur.
\<close>

definition prefetched :: "client_id \<Rightarrow> vbos \<Rightarrow> server \<Rightarrow> server" where
  "prefetched cid v s =
     (case sessions s cid of
        None \<Rightarrow> s
      | Some c \<Rightarrow>
          (case stage c of
             FETCHING g \<Rightarrow>
               awaiting_ready cid g v
                 (s\<lparr>lastCompressedVbos := (lastCompressedVbos s)(cid \<mapsto> compressed v)\<rparr>)
           | _ \<Rightarrow> s))"

subsection \<open>The handlers\<close>

text \<open>
  Lines 100-131 and the subscription of line 194. A socket id names one connection, so
  a connection event for an id that already has its closures does not occur and is
  ignored. The new pipeline subscribes to \<^verbatim>\<open>graph\<close>, which replays its value if it has
  one.
\<close>

definition connection :: "client_id \<Rightarrow> buffer_name list \<Rightarrow> string list \<Rightarrow> server \<Rightarrow> server" where
  "connection cid bufs progs s =
     (case sessions s cid of
        Some c \<Rightarrow> s
      | None \<Rightarrow>
          (let c0 = \<lparr>activeBuffers = bufs, activePrograms = progs, clientReady = True,
                     stage = AWAITING_GRAPH, trace = []\<rparr>
           in s\<lparr>lastCompressedVbos := (lastCompressedVbos s)(cid \<mapsto> Map.empty),
                sessions := (sessions s)(cid \<mapsto>
                   (case graph s of None \<Rightarrow> c0 | Some g \<Rightarrow> start_fetch g c0))\<rparr>))"

text \<open>Lines 104-107.\<close>

definition disconnect :: "client_id \<Rightarrow> server \<Rightarrow> server" where
  "disconnect cid s = s\<lparr>lastCompressedVbos := (lastCompressedVbos s)(cid := None)\<rparr>"

text \<open>
  Lines 123-126: \<^verbatim>\<open>clientReady.onNext(true)\<close>. A pipeline suspended in stage 2 is
  subscribed to the cell and proceeds in the same handler.
\<close>

definition received_buffers :: "client_id \<Rightarrow> server \<Rightarrow> server" where
  "received_buffers cid s =
     (let s1 = upd_session cid (\<lambda>c. c\<lparr>clientReady := True\<rparr>) s
      in case sessions s cid of
           None \<Rightarrow> s1
         | Some c \<Rightarrow>
             (case stage c of
                AWAITING_READY g v \<Rightarrow> client_ready_proceed cid g v s1
              | _ \<Rightarrow> s1))"

text \<open>
  One pipeline when \<^verbatim>\<open>ticksMulti\<close> produces \<open>t\<close>. A pipeline still waiting for
  \<^verbatim>\<open>graph\<close> gets \<open>t\<close> if this is the tick \<^verbatim>\<open>take(1)\<close> passes on to \<^verbatim>\<open>graph\<close>. A
  pipeline in stage 4 (lines 186-192) is let through and \<^verbatim>\<open>map(_.constant(graph))\<close>
  hands its own closure variable \<^verbatim>\<open>graph\<close> back to \<^verbatim>\<open>expand\<close>.
\<close>

definition tick_session :: "tick option \<Rightarrow> tick \<Rightarrow> session \<Rightarrow> session" where
  "tick_session held t c =
     (case stage c of
        AWAITING_GRAPH \<Rightarrow> (case held of None \<Rightarrow> start_fetch t c | Some g \<Rightarrow> c)
      | AWAITING_NEXT_TICK g \<Rightarrow> start_fetch g (c\<lparr>trace := trace c @ [Debug D4b_next_ready]\<rparr>)
      | _ \<Rightarrow> c)"

text \<open>Lines 91-97: the tick reaches \<^verbatim>\<open>graph\<close> (only the first does) and every pipeline.\<close>

definition produce_tick :: "tick \<Rightarrow> server \<Rightarrow> server" where
  "produce_tick t s =
     s\<lparr>graph := (case graph s of None \<Rightarrow> Some t | Some g \<Rightarrow> Some g),
       sessions := (\<lambda>cid. map_option (tick_session (graph s) t) (sessions s cid))\<rparr>"

subsection \<open>The data channel endpoint (lines 64-86)\<close>

text \<open>
  The two module maps and every cached Buffer Set are plain objects, so a key they do not
  own is looked up in \<^verbatim>\<open>Object.prototype\<close>. These are its property names.
\<close>

definition object_prototype_keys :: "string list" where
  "object_prototype_keys =
     [''constructor'', ''toString'', ''toLocaleString'', ''valueOf'', ''hasOwnProperty'',
      ''isPrototypeOf'', ''propertyIsEnumerable'', ''__defineGetter__'', ''__defineSetter__'',
      ''__lookupGetter__'', ''__lookupSetter__'', ''__proto__'']"

text \<open>
  What line 80 can read: \<^verbatim>\<open>undefined\<close>, cached bytes, or a value inherited from
  \<^verbatim>\<open>Object.prototype\<close>, named by the keys that lead to it from there.
\<close>

datatype js_value = Undefined | Bytes bytes | Inherited "string list"

text \<open>
  The inherited values belong to the JavaScript runtime, not to the server, so what the
  runtime does with them is a parameter. \<open>inherited_end p\<close> is the error thrown inside the
  \<^verbatim>\<open>try\<close> block when the value at the path \<open>p\<close> is read and handed to \<^verbatim>\<open>res.end\<close>,
  and \<open>None\<close> when \<^verbatim>\<open>res.end\<close> takes it. \<open>inherited_call k n\<close> is the error thrown when
  \<^verbatim>\<open>Object.prototype[k]\<close> is called as a method of the map with the buffer name \<open>n\<close>
  (a TypeError when it is no function), and \<open>None\<close> when the call returns. Such a call
  leaves the maps of the server as they are.
\<close>

record js_runtime =
  inherited_end :: "string list \<Rightarrow> js_error option"
  inherited_call :: "string \<Rightarrow> buffer_name \<Rightarrow> js_error option"

datatype res_event =
    WriteHead nat "(string \<times> string) list"
  | End js_value
  | ConsoleError js_error
  | Call_finishBufferTransfers client_id buffer_name

definition vbo_headers :: "(string \<times> string) list" where
  "vbo_headers =
     [(''Content-Encoding'', ''gzip''),
      (''Content-Type'', ''text/javascript''),
      (''Access-Control-Allow-Origin'', ''*''),
      (''Access-Control-Allow-Headers'', ''X-Requested-With,Content-Type,Authorization''),
      (''Access-Control-Allow-Methods'', ''GET,PUT,PATCH,POST,DELETE'')]"

text \<open>
  Line 80, the expression \<^verbatim>\<open>lastCompressedVbos[id][bufferName]\<close>. With an entry of
  its own for the id, the buffer name is looked up in the cached Buffer Set: its bytes, an
  inherited value, or \<^verbatim>\<open>undefined\<close>. Without one, an id that names a property of
  \<^verbatim>\<open>Object.prototype\<close> reads that property and the buffer name is looked up in it; any
  other id reads \<^verbatim>\<open>undefined\<close>, and indexing that throws a TypeError.
\<close>

definition cached :: "client_id \<Rightarrow> buffer_name \<Rightarrow> server \<Rightarrow> js_error + js_value" where
  "cached cid bufferName s =
     (case lastCompressedVbos s cid of
        Some bufs \<Rightarrow>
          (case bufs bufferName of
             Some b \<Rightarrow> Inr (Bytes b)
           | None \<Rightarrow>
               if bufferName \<in> set object_prototype_keys
               then Inr (Inherited [bufferName]) else Inr Undefined)
      | None \<Rightarrow>
          if cid \<in> set object_prototype_keys
          then Inr (Inherited [cid, bufferName]) else Inl TypeError)"

text \<open>
  Lines 72-83, the \<^verbatim>\<open>try\<close> block. The head is written first. An error thrown by the
  lookup, or by \<^verbatim>\<open>res.end\<close> on an inherited value, is logged by the \<^verbatim>\<open>catch\<close>;
  \<^verbatim>\<open>res.end(undefined)\<close> ends the response without a body.
\<close>

definition vbo_respond ::
    "js_runtime \<Rightarrow> client_id \<Rightarrow> buffer_name \<Rightarrow> server \<Rightarrow> res_event list" where
  "vbo_respond rt cid bufferName s =
     WriteHead 200 vbo_headers #
       (case cached cid bufferName s of
          Inl e \<Rightarrow> [ConsoleError e]
        | Inr (Inherited p) \<Rightarrow>
            (case inherited_end rt p of
               None \<Rightarrow> [End (Inherited p)]
             | Some e \<Rightarrow> [ConsoleError e])
        | Inr v \<Rightarrow> [End v])"

text \<open>
  The whole handler: the \<^verbatim>\<open>try\<close> block, then line 84 outside it. With a callback
  stored under the id, it is called. Without one, an id that names a property of
  \<^verbatim>\<open>Object.prototype\<close> calls that property, and any other id calls \<^verbatim>\<open>undefined\<close>,
  which throws a TypeError; nothing in the handler catches an error of line 84. The
  result is the new state, what the handler did to the response and the console in
  program order (the call of line 84 is listed when it returned), and the error the
  handler threw, if any.
\<close>

definition vbo_handler ::
    "js_runtime \<Rightarrow> client_id \<Rightarrow> buffer_name \<Rightarrow> server
       \<Rightarrow> server \<times> res_event list \<times> js_error option" where
  "vbo_handler rt cid bufferName s =
     (let r = vbo_respond rt cid bufferName s
      in case finishBufferTransfers s cid of
           Some b \<Rightarrow>
             (finish_transfer cid b bufferName s,
              r @ [Call_finishBufferTransfers cid bufferName], None)
         | None \<Rightarrow>
             if cid \<in> set object_prototype_keys
             then (case inherited_call rt cid bufferName of
                     None \<Rightarrow> (s, r @ [Call_finishBufferTransfers cid bufferName], None)
                   | Some e \<Rightarrow> (s, r, Some e))
             else (s, r, Some TypeError))"

text \<open>
  The state a request leaves, which no runtime parameter enters: the stored callback
  has run if the id has one, and nothing has changed otherwise.
\<close>

definition vbo_effect :: "client_id \<Rightarrow> buffer_name \<Rightarrow> server \<Rightarrow> server" where
  "vbo_effect cid bufferName s =
     (case finishBufferTransfers s cid of
        None \<Rightarrow> s
      | Some b \<Rightarrow> finish_transfer cid b bufferName s)"

subsection \<open>Runs\<close>

datatype event =
    Connection client_id "buffer_name list" "string list"
  | Disconnect client_id
  | Graph_settings client_id nat
  | Received_buffers client_id
  | Tick tick
  | Fetched client_id vbos
  | Vbo_request client_id buffer_name

text \<open>
  \<^verbatim>\<open>graph_settings\<close> (lines 112-115) only forwards its payload to the animation. A
  \<^verbatim>\<open>/vbo\<close> request leaves the state of its handler, whether it returned or threw
  (\<open>vbo_handler_state\<close>).
\<close>

fun step :: "server \<Rightarrow> event \<Rightarrow> server" where
  "step s (Connection cid bufs progs) = connection cid bufs progs s"
| "step s (Disconnect cid) = disconnect cid s"
| "step s (Graph_settings cid payload) = s"
| "step s (Received_buffers cid) = received_buffers cid s"
| "step s (Tick t) = produce_tick t s"
| "step s (Fetched cid v) = prefetched cid v s"
| "step s (Vbo_request cid bufferName) = vbo_effect cid bufferName s"

definition run :: "server \<Rightarrow> event list \<Rightarrow> server" where
  "run s evs = foldl step s evs"


subsection \<open>Observations\<close>

text \<open>The status codes written to one response, in order.\<close>

fun statuses :: "res_event list \<Rightarrow> nat list" where
  "statuses [] = []"
| "statuses (WriteHead st hs # r) = st # statuses r"
| "statuses (e # r) = statuses r"

text \<open>
  A Buffer Set is notified when \<^verbatim>\<open>vbo_update\<close> is emitted for it, and it stops being
  in flight when the pipeline passes the barrier of that cycle (debug line 3c).
\<close>

fun is_emit :: "out_event \<Rightarrow> bool" where
  "is_emit (Emit_vbo_update lens els) = True"
| "is_emit e = False"

definition notified :: "session \<Rightarrow> nat" where
  "notified c = length (filter is_emit (trace c))"

definition all_in_transit :: "session \<Rightarrow> nat" where
  "all_in_transit c = count_list (trace c) (Debug D3c_All_in_transit)"




text \<open>
  The buffer names an event list pulls for one client, in order of arrival, and the
  events that deliver a fetch result to that client. A pipeline that has run stage 3
  runs it again only after the next fetch result has arrived.
\<close>

fun pulls_of :: "client_id \<Rightarrow> event list \<Rightarrow> buffer_name list" where
  "pulls_of cid [] = []"
| "pulls_of cid (Vbo_request x n # evs) =
     (if x = cid then n # pulls_of cid evs else pulls_of cid evs)"
| "pulls_of cid (e # evs) = pulls_of cid evs"

fun fetched_for :: "client_id \<Rightarrow> event \<Rightarrow> bool" where
  "fetched_for cid (Fetched x v) = (x = cid)"
| "fetched_for cid e = False"

text \<open>
  Invariants of the reachable states. A pipeline waiting for its barrier has notified one
  Buffer Set more than it has seen through, any other pipeline as many.
\<close>

definition cycle_inv :: "session \<Rightarrow> bool" where
  "cycle_inv c =
     (case stage c of
        AWAITING_BARRIER g k \<Rightarrow> notified c = Suc (all_in_transit c)
      | _ \<Rightarrow> notified c = all_in_transit c)"


text \<open>
  Every stored callback belongs to a subject that exists, and a pipeline waiting for
  its barrier waits on the subject of the callback stored under its id.
\<close>

definition barrier_inv :: "server \<Rightarrow> bool" where
  "barrier_inv s =
     ((\<forall>cid b. finishBufferTransfers s cid = Some b \<longrightarrow> sendingAllBuffers b < subjects s)
      \<and> (\<forall>cid c g k. sessions s cid = Some c \<and> stage c = AWAITING_BARRIER g k \<longrightarrow>
            (\<exists>b. finishBufferTransfers s cid = Some b \<and> sendingAllBuffers b = k)))"

text \<open>A client that has been sent \<^verbatim>\<open>vbo_update\<close> has a stored callback.\<close>

definition notified_inv :: "server \<Rightarrow> bool" where
  "notified_inv s =
     (\<forall>cid c. sessions s cid = Some c \<and> 0 < notified c \<longrightarrow> finishBufferTransfers s cid \<noteq> None)"

text \<open>Two fetch results used in the examples.\<close>

definition position_only :: vbos where
  "position_only = \<lparr>compressed = [''position'' \<mapsto> [1]],
                     bufferByteLengths = [(''position'', 1)], elements = [(''points'', 1)]\<rparr>"

definition position_color :: vbos where
  "position_color = \<lparr>compressed = [''position'' \<mapsto> [1], ''color'' \<mapsto> [2]],
                      bufferByteLengths = [(''position'', 1), (''color'', 1)],
                      elements = [(''points'', 1)]\<rparr>"


section \<open>Properties of the handlers\<close>

lemmas handler_defs =
  run_def init_def connection_def disconnect_def received_buffers_def produce_tick_def
  tick_session_def start_fetch_def prefetched_def awaiting_ready_def client_ready_proceed_def
  notifying_def upd_session_def sendingAllBuffers_onNext_def finish_transfer_def
  vbo_handler_def vbo_respond_def vbo_effect_def cached_def object_prototype_keys_def Let_def

lemmas count_defs = notified_def all_in_transit_def cycle_inv_def

lemmas example_defs = position_only_def position_color_def

subsection \<open>What each handler leaves alone\<close>

lemma upd_session_frame [simp]:
  "lastCompressedVbos (upd_session cid f s) = lastCompressedVbos s"
  "finishBufferTransfers (upd_session cid f s) = finishBufferTransfers s"
  "graph (upd_session cid f s) = graph s"
  "subjects (upd_session cid f s) = subjects s"
  by (simp_all add: upd_session_def split: option.splits)

lemma sessions_upd_session [simp]:
  "sessions (upd_session cid f s) = (sessions s)(cid := map_option f (sessions s cid))"
  by (auto simp: upd_session_def split: option.splits)

lemma onNext_frame [simp]:
  "lastCompressedVbos (sendingAllBuffers_onNext cid k s) = lastCompressedVbos s"
  "finishBufferTransfers (sendingAllBuffers_onNext cid k s) = finishBufferTransfers s"
  "graph (sendingAllBuffers_onNext cid k s) = graph s"
  "subjects (sendingAllBuffers_onNext cid k s) = subjects s"
  by (simp_all add: sendingAllBuffers_onNext_def)

lemma finish_transfer_frame [simp]:
  "lastCompressedVbos (finish_transfer cid b n s) = lastCompressedVbos s"
  "graph (finish_transfer cid b n s) = graph s"
  "subjects (finish_transfer cid b n s) = subjects s"
  "finishBufferTransfers (finish_transfer cid b n s) =
     (finishBufferTransfers s)(cid \<mapsto> b\<lparr>transferredBuffers := transferredBuffers b @ [n]\<rparr>)"
  by (simp_all add: finish_transfer_def Let_def)

lemma notifying_frame [simp]:
  "lastCompressedVbos (notifying cid g v s) = lastCompressedVbos s"
  "graph (notifying cid g v s) = graph s"
  by (simp_all add: notifying_def split: option.splits)

lemma proceed_frame [simp]:
  "lastCompressedVbos (client_ready_proceed cid g v s) = lastCompressedVbos s"
  "graph (client_ready_proceed cid g v s) = graph s"
  by (simp_all add: client_ready_proceed_def)

lemma awaiting_ready_frame [simp]:
  "lastCompressedVbos (awaiting_ready cid g v s) = lastCompressedVbos s"
  "graph (awaiting_ready cid g v s) = graph s"
  by (simp_all add: awaiting_ready_def Let_def split: option.splits)

lemma received_buffers_frame [simp]:
  "lastCompressedVbos (received_buffers cid s) = lastCompressedVbos s"
  "graph (received_buffers cid s) = graph s"
  by (simp_all add: received_buffers_def Let_def split: option.splits stage.splits)

lemma prefetched_graph [simp]: "graph (prefetched cid v s) = graph s"
  by (simp add: prefetched_def split: option.splits stage.splits)

lemma connection_graph [simp]: "graph (connection cid bufs progs s) = graph s"
  by (simp add: connection_def Let_def split: option.splits)

lemma statuses_append [simp]: "statuses (r @ r') = statuses r @ statuses r'"
  by (induction r rule: statuses.induct) simp_all

lemma vbo_handler_state: "fst (vbo_handler rt cid n s) = vbo_effect cid n s"
  by (simp add: vbo_handler_def vbo_effect_def Let_def split: option.splits)

subsection \<open>What each part of the loop does to its session\<close>

lemma sessions_proceed:
  "sessions s cid = Some c \<Longrightarrow>
   sessions (client_ready_proceed cid g v s) = (sessions s)(cid \<mapsto>
     c\<lparr>clientReady := False, stage := AWAITING_BARRIER g (subjects s),
       trace := trace c @ [Debug D2b_Client_ready, Debug D3_tell_client,
                           Emit_vbo_update (bufferByteLengths v) (elements v)]\<rparr>)"
  by (cases c) (simp add: client_ready_proceed_def notifying_def)

lemma sessions_awaiting_ready:
  "sessions s cid = Some c \<Longrightarrow>
   sessions (awaiting_ready cid g v s) = (sessions s)(cid \<mapsto>
     (if clientReady c
      then c\<lparr>clientReady := False, stage := AWAITING_BARRIER g (subjects s),
             trace := trace c @ [Debug D2_Waiting_for_client, Debug D2b_Client_ready,
                                 Debug D3_tell_client,
                                 Emit_vbo_update (bufferByteLengths v) (elements v)]\<rparr>
      else c\<lparr>stage := AWAITING_READY g v,
             trace := trace c @ [Debug D2_Waiting_for_client]\<rparr>))"
  by (cases c) (simp add: awaiting_ready_def Let_def sessions_proceed)

lemma sessions_prefetched:
  "sessions s cid = Some c \<Longrightarrow> stage c = FETCHING g \<Longrightarrow>
   sessions (prefetched cid v s) = (sessions s)(cid \<mapsto>
     (if clientReady c
      then c\<lparr>clientReady := False, stage := AWAITING_BARRIER g (subjects s),
             trace := trace c @ [Debug D2_Waiting_for_client, Debug D2b_Client_ready,
                                 Debug D3_tell_client,
                                 Emit_vbo_update (bufferByteLengths v) (elements v)]\<rparr>
      else c\<lparr>stage := AWAITING_READY g v,
             trace := trace c @ [Debug D2_Waiting_for_client]\<rparr>))"
  by (simp add: prefetched_def sessions_awaiting_ready)


lemma sessions_received_waiting:
  "sessions s cid = Some c \<Longrightarrow> stage c = AWAITING_READY g v \<Longrightarrow>
   sessions (received_buffers cid s) = (sessions s)(cid \<mapsto>
     c\<lparr>clientReady := False, stage := AWAITING_BARRIER g (subjects s),
       trace := trace c @ [Debug D2b_Client_ready, Debug D3_tell_client,
                           Emit_vbo_update (bufferByteLengths v) (elements v)]\<rparr>)"
  by (simp add: received_buffers_def Let_def sessions_proceed)

lemma sessions_received_other:
  "sessions s cid = Some c \<Longrightarrow> \<forall>g v. stage c \<noteq> AWAITING_READY g v \<Longrightarrow>
   sessions (received_buffers cid s) = (sessions s)(cid \<mapsto> c\<lparr>clientReady := True\<rparr>)"
  by (cases "stage c") (simp_all add: received_buffers_def Let_def)

lemma received_buffers_none: "sessions s cid = None \<Longrightarrow> received_buffers cid s = s"
  by (simp add: received_buffers_def Let_def upd_session_def)


lemma sessions_finish_transfer:
  "sessions s cid = Some c \<Longrightarrow>
   sessions (finish_transfer cid b n s) = (sessions s)(cid \<mapsto>
     (if Suc (length (transferredBuffers b)) = length (closureActiveBuffers b)
      then (if \<exists>g. stage c = AWAITING_BARRIER g (sendingAllBuffers b)
            then c\<lparr>stage := AWAITING_NEXT_TICK (case stage c of AWAITING_BARRIER g k' \<Rightarrow> g | _ \<Rightarrow> 0),
                   trace := trace c @ [Debug (D3a_sending_a_buffer n), Debug D3b_started_sending_all,
                                       Debug D3c_All_in_transit, Debug D4_Wait_for_next_anim_step]\<rparr>
            else c\<lparr>trace := trace c @ [Debug (D3a_sending_a_buffer n), Debug D3b_started_sending_all]\<rparr>)
      else c\<lparr>trace := trace c @ [Debug (D3a_sending_a_buffer n)]\<rparr>))"
  by (cases c; cases "stage c") (auto simp: finish_transfer_def Let_def sendingAllBuffers_onNext_def)

lemma sessions_finish_transfer_none:
  "sessions s cid = None \<Longrightarrow> sessions (finish_transfer cid b n s) = sessions s"
  by (simp add: finish_transfer_def Let_def sendingAllBuffers_onNext_def upd_session_def)

subsection \<open>Each handler as an update of the per-client maps\<close>

lemma sessions_connection:
  "sessions (connection x bufs progs s) =
     (case sessions s x of
        Some d \<Rightarrow> sessions s
      | None \<Rightarrow> (sessions s)(x \<mapsto>
          (case graph s of
             None \<Rightarrow> \<lparr>activeBuffers = bufs, activePrograms = progs, clientReady = True,
                       stage = AWAITING_GRAPH, trace = []\<rparr>
           | Some g \<Rightarrow> \<lparr>activeBuffers = bufs, activePrograms = progs, clientReady = True,
                       stage = FETCHING g,
                       trace = [Debug D1_Prefetch_VBOs, FetchData g bufs progs]\<rparr>)))"
  by (simp add: connection_def Let_def start_fetch_def split: option.splits)

lemma sessions_received:
  "sessions (received_buffers x s) =
     (case sessions s x of
        None \<Rightarrow> sessions s
      | Some d \<Rightarrow> (sessions s)(x \<mapsto>
          (case stage d of
             AWAITING_READY g v \<Rightarrow>
               d\<lparr>clientReady := False, stage := AWAITING_BARRIER g (subjects s),
                 trace := trace d @ [Debug D2b_Client_ready, Debug D3_tell_client,
                                     Emit_vbo_update (bufferByteLengths v) (elements v)]\<rparr>
           | _ \<Rightarrow> d\<lparr>clientReady := True\<rparr>)))"
proof (cases "sessions s x")
  case None
  then show ?thesis by (simp add: received_buffers_none)
next
  case (Some d)
  then show ?thesis
    by (cases "stage d") (simp_all add: sessions_received_waiting sessions_received_other)
qed

lemma sessions_fetched:
  "sessions (prefetched x v s) =
     (case sessions s x of
        None \<Rightarrow> sessions s
      | Some d \<Rightarrow>
          (case stage d of
             FETCHING g \<Rightarrow> (sessions s)(x \<mapsto>
               (if clientReady d
                then d\<lparr>clientReady := False, stage := AWAITING_BARRIER g (subjects s),
                       trace := trace d @ [Debug D2_Waiting_for_client, Debug D2b_Client_ready,
                                           Debug D3_tell_client,
                                           Emit_vbo_update (bufferByteLengths v) (elements v)]\<rparr>
                else d\<lparr>stage := AWAITING_READY g v,
                       trace := trace d @ [Debug D2_Waiting_for_client]\<rparr>))
           | _ \<Rightarrow> sessions s))"
proof (cases "sessions s x")
  case None
  then show ?thesis by (simp add: prefetched_def)
next
  case (Some d)
  then show ?thesis
    by (cases "stage d") (simp_all add: sessions_prefetched, simp_all add: prefetched_def)
qed

lemma sessions_vbo_request:
  "sessions (vbo_effect x n s) =
     (case finishBufferTransfers s x of
        None \<Rightarrow> sessions s
      | Some b \<Rightarrow>
          (case sessions s x of
             None \<Rightarrow> sessions s
           | Some d \<Rightarrow> (sessions s)(x \<mapsto>
               (if Suc (length (transferredBuffers b)) = length (closureActiveBuffers b)
                then (case stage d of
                        AWAITING_BARRIER g k \<Rightarrow>
                          if k = sendingAllBuffers b
                          then d\<lparr>stage := AWAITING_NEXT_TICK g,
                                 trace := trace d @ [Debug (D3a_sending_a_buffer n),
                                                     Debug D3b_started_sending_all,
                                                     Debug D3c_All_in_transit,
                                                     Debug D4_Wait_for_next_anim_step]\<rparr>
                          else d\<lparr>trace := trace d @ [Debug (D3a_sending_a_buffer n),
                                                     Debug D3b_started_sending_all]\<rparr>
                      | _ \<Rightarrow> d\<lparr>trace := trace d @ [Debug (D3a_sending_a_buffer n),
                                                  Debug D3b_started_sending_all]\<rparr>)
                else d\<lparr>trace := trace d @ [Debug (D3a_sending_a_buffer n)]\<rparr>))))"
proof (cases "finishBufferTransfers s x")
  case None
  then show ?thesis by (simp add: vbo_effect_def)
next
  case b: (Some b)
  show ?thesis
  proof (cases "sessions s x")
    case None
    then show ?thesis using b by (simp add: vbo_effect_def sessions_finish_transfer_none)
  next
    case (Some d)
    then show ?thesis using b
      by (cases "stage d") (auto simp: vbo_effect_def sessions_finish_transfer)
  qed
qed

lemma barriers_notifying:
  "finishBufferTransfers (notifying x g v s) =
     (case sessions s x of
        None \<Rightarrow> finishBufferTransfers s
      | Some d \<Rightarrow> (finishBufferTransfers s)(x \<mapsto>
          \<lparr>transferredBuffers = [], closureActiveBuffers = activeBuffers d,
           sendingAllBuffers = subjects s\<rparr>))"
  by (simp add: notifying_def split: option.splits)

lemma barriers_proceed:
  "finishBufferTransfers (client_ready_proceed x g v s) =
     (case sessions s x of
        None \<Rightarrow> finishBufferTransfers s
      | Some d \<Rightarrow> (finishBufferTransfers s)(x \<mapsto>
          \<lparr>transferredBuffers = [], closureActiveBuffers = activeBuffers d,
           sendingAllBuffers = subjects s\<rparr>))"
  by (simp add: client_ready_proceed_def barriers_notifying split: option.splits)

lemma barriers_received:
  "finishBufferTransfers (received_buffers x s) =
     (case sessions s x of
        None \<Rightarrow> finishBufferTransfers s
      | Some d \<Rightarrow>
          (case stage d of
             AWAITING_READY g v \<Rightarrow> (finishBufferTransfers s)(x \<mapsto>
               \<lparr>transferredBuffers = [], closureActiveBuffers = activeBuffers d,
                sendingAllBuffers = subjects s\<rparr>)
           | _ \<Rightarrow> finishBufferTransfers s))"
  by (simp add: received_buffers_def Let_def barriers_proceed split: option.splits stage.splits)

lemma barriers_fetched:
  "finishBufferTransfers (prefetched x v s) =
     (case sessions s x of
        None \<Rightarrow> finishBufferTransfers s
      | Some d \<Rightarrow>
          (case stage d of
             FETCHING g \<Rightarrow>
               if clientReady d
               then (finishBufferTransfers s)(x \<mapsto>
                 \<lparr>transferredBuffers = [], closureActiveBuffers = activeBuffers d,
                  sendingAllBuffers = subjects s\<rparr>)
               else finishBufferTransfers s
           | _ \<Rightarrow> finishBufferTransfers s))"
  by (simp add: prefetched_def awaiting_ready_def Let_def barriers_proceed
      split: option.splits stage.splits)

lemma barriers_vbo_request:
  "finishBufferTransfers (vbo_effect x n s) =
     (case finishBufferTransfers s x of
        None \<Rightarrow> finishBufferTransfers s
      | Some b \<Rightarrow> (finishBufferTransfers s)(x \<mapsto>
          b\<lparr>transferredBuffers := transferredBuffers b @ [n]\<rparr>))"
  by (simp add: vbo_effect_def split: option.splits)

lemma barriers_other [simp]:
  "finishBufferTransfers (connection x bufs progs s) = finishBufferTransfers s"
  "finishBufferTransfers (disconnect x s) = finishBufferTransfers s"
  "finishBufferTransfers (produce_tick t s) = finishBufferTransfers s"
  by (simp_all add: connection_def disconnect_def produce_tick_def Let_def split: option.splits)

lemma cache_fetched:
  "lastCompressedVbos (prefetched x v s) =
     (case sessions s x of
        None \<Rightarrow> lastCompressedVbos s
      | Some d \<Rightarrow>
          (case stage d of
             FETCHING g \<Rightarrow> (lastCompressedVbos s)(x \<mapsto> compressed v)
           | _ \<Rightarrow> lastCompressedVbos s))"
  by (simp add: prefetched_def split: option.splits stage.splits)

lemma cache_connection:
  "lastCompressedVbos (connection x bufs progs s) =
     (case sessions s x of
        Some d \<Rightarrow> lastCompressedVbos s
      | None \<Rightarrow> (lastCompressedVbos s)(x \<mapsto> Map.empty))"
  by (simp add: connection_def Let_def split: option.splits)

lemma cache_other [simp]:
  "lastCompressedVbos (produce_tick t s) = lastCompressedVbos s"
  "lastCompressedVbos (vbo_effect x n s) = lastCompressedVbos s"
  "lastCompressedVbos (disconnect x s) = (lastCompressedVbos s)(x := None)"
  by (simp_all add: produce_tick_def vbo_effect_def disconnect_def Let_def split: option.splits)

lemma sessions_other [simp]:
  "sessions (disconnect x s) = sessions s"
  "sessions (produce_tick t s) cid = map_option (tick_session (graph s) t) (sessions s cid)"
  by (simp_all add: disconnect_def produce_tick_def)

lemmas step_maps =
  sessions_connection sessions_received sessions_fetched sessions_vbo_request
  barriers_received barriers_fetched barriers_vbo_request cache_fetched cache_connection

lemma subjects_notifying:
  "subjects (notifying x g v s) =
     (case sessions s x of None \<Rightarrow> subjects s | Some d \<Rightarrow> Suc (subjects s))"
  by (simp add: notifying_def split: option.splits)

lemma subjects_proceed:
  "subjects (client_ready_proceed x g v s) =
     (case sessions s x of None \<Rightarrow> subjects s | Some d \<Rightarrow> Suc (subjects s))"
  by (simp add: client_ready_proceed_def subjects_notifying split: option.splits)

lemma subjects_received:
  "subjects (received_buffers x s) =
     (case sessions s x of
        None \<Rightarrow> subjects s
      | Some d \<Rightarrow> (case stage d of AWAITING_READY g v \<Rightarrow> Suc (subjects s) | _ \<Rightarrow> subjects s))"
  by (simp add: received_buffers_def Let_def subjects_proceed split: option.splits stage.splits)

lemma subjects_fetched:
  "subjects (prefetched x v s) =
     (case sessions s x of
        None \<Rightarrow> subjects s
      | Some d \<Rightarrow>
          (case stage d of
             FETCHING g \<Rightarrow> if clientReady d then Suc (subjects s) else subjects s
           | _ \<Rightarrow> subjects s))"
  by (simp add: prefetched_def awaiting_ready_def Let_def subjects_proceed
      split: option.splits stage.splits)

lemma subjects_other [simp]:
  "subjects (connection x bufs progs s) = subjects s"
  "subjects (disconnect x s) = subjects s"
  "subjects (produce_tick t s) = subjects s"
  "subjects (vbo_effect x n s) = subjects s"
  by (simp_all add: connection_def disconnect_def produce_tick_def vbo_effect_def Let_def
      split: option.splits)

subsection \<open>The in-flight invariant\<close>

















subsection \<open>Steps that notify and steps that do not\<close>


lemma notify_step:
  assumes "sessions s cid = Some c" "sessions (step s e) cid = Some c'"
    "notified c' \<noteq> notified c"
  shows "\<not> clientReady c' \<and> notified c' = Suc (notified c)
       \<and> (clientReady c \<or> e = Received_buffers cid)
       \<and> (\<exists>g. stage c' = AWAITING_BARRIER g (subjects s))
       \<and> finishBufferTransfers (step s e) cid =
           Some \<lparr>transferredBuffers = [], closureActiveBuffers = activeBuffers c,
                 sendingAllBuffers = subjects s\<rparr>"
  using assms
  by (cases e)
     (auto simp: step_maps tick_session_def start_fetch_def notified_def
           split: option.splits stage.splits if_splits)

lemma barrier_step:
  assumes "sessions s cid = Some c" "sessions (step s e) cid = Some c'" "notified c' = notified c"
  shows "finishBufferTransfers (step s e) cid =
           (case e of
              Vbo_request x n \<Rightarrow>
                if x = cid
                then map_option (\<lambda>b. b\<lparr>transferredBuffers := transferredBuffers b @ [n]\<rparr>)
                       (finishBufferTransfers s cid)
                else finishBufferTransfers s cid
            | _ \<Rightarrow> finishBufferTransfers s cid)"
  using assms
  by (cases e)
     (auto simp: step_maps notified_def split: option.splits stage.splits if_splits)

lemma barrier_inv_step: 
  assumes "barrier_inv s" shows "barrier_inv (step s e)"
  unfolding barrier_inv_def
proof (intro conjI allI impI)
  fix cid b
  assume "finishBufferTransfers (step s e) cid = Some b"
  then show "sendingAllBuffers b < subjects (step s e)"
    using assms unfolding barrier_inv_def
    by (cases e)
       (auto simp: step_maps subjects_received subjects_fetched less_Suc_eq
             split: option.splits stage.splits if_splits)
next
  fix cid c g k
  assume "sessions (step s e) cid = Some c \<and> stage c = AWAITING_BARRIER g k"
  then show "\<exists>b. finishBufferTransfers (step s e) cid = Some b \<and> sendingAllBuffers b = k"
    using assms unfolding barrier_inv_def
    by (cases e)
       (auto simp: step_maps tick_session_def start_fetch_def
             split: option.splits stage.splits if_splits, (metis option.inject)+)
qed

lemma barrier_inv_run: "barrier_inv s \<Longrightarrow> barrier_inv (run s evs)"
  unfolding run_def by (induction evs arbitrary: s) (simp_all add: barrier_inv_step)

lemma barrier_inv_init: "barrier_inv init"
  by (simp add: barrier_inv_def init_def)

lemma notified_inv_step:
  assumes "notified_inv s" shows "notified_inv (step s e)"
  unfolding notified_inv_def
proof (intro allI impI)
  fix cid c
  assume "sessions (step s e) cid = Some c \<and> 0 < notified c"
  then show "finishBufferTransfers (step s e) cid \<noteq> None"
    using assms unfolding notified_inv_def
    by (cases e)
       (auto simp: step_maps tick_session_def start_fetch_def notified_def
             split: option.splits stage.splits if_splits)
qed

lemma notified_inv_run: "notified_inv s \<Longrightarrow> notified_inv (run s evs)"
  unfolding run_def by (induction evs arbitrary: s) (simp_all add: notified_inv_step)

lemma notified_inv_init: "notified_inv init"
  by (simp add: notified_inv_def init_def)

subsection \<open>The replay cell and the pulls of one cycle\<close>



lemma pulls_of_append [simp]: "pulls_of cid (evs @ evs') = pulls_of cid evs @ pulls_of cid evs'"
  by (induction cid evs rule: pulls_of.induct) simp_all

lemma run_snoc: "run s (evs @ [e]) = step (run s evs) e"
  by (simp add: run_def)

lemma cycle_run:
  assumes c: "sessions s cid = Some c"
    and nf: "filter (fetched_for cid) evs = []"
  defines "fired n \<equiv> 1 \<le> length (activeBuffers c) \<and> length (activeBuffers c) \<le> n"
  shows "finishBufferTransfers (run (notifying cid g v s) evs) cid =
           Some \<lparr>transferredBuffers = pulls_of cid evs, closureActiveBuffers = activeBuffers c,
                 sendingAllBuffers = subjects s\<rparr>
       \<and> (\<exists>c'. sessions (run (notifying cid g v s) evs) cid = Some c'
             \<and> (if fired (length (pulls_of cid evs))
                 then stage c' = AWAITING_NEXT_TICK g \<or> stage c' = FETCHING g
                 else stage c' = AWAITING_BARRIER g (subjects s))
             \<and> all_in_transit c' = all_in_transit c + (if fired (length (pulls_of cid evs)) then 1 else 0)
             \<and> count_list (trace c') (Debug D3b_started_sending_all)
                 = count_list (trace c) (Debug D3b_started_sending_all)
                   + (if fired (length (pulls_of cid evs)) then 1 else 0)
             \<and> notified c' = Suc (notified c))"
  using nf
proof (induction evs rule: rev_induct)
  case Nil
  show ?case using c
    by (auto simp: run_def fired_def notifying_def count_defs)
next
  case (snoc e evs)
  let ?s = "run (notifying cid g v s) evs"
  let ?b = "\<lparr>transferredBuffers = pulls_of cid evs, closureActiveBuffers = activeBuffers c,
                 sendingAllBuffers = subjects s\<rparr>"
  from snoc have nf': "filter (fetched_for cid) evs = []" and ne: "\<not> fetched_for cid e"
    by (auto split: if_splits)
  from snoc.IH [OF nf'] obtain c' where b: "finishBufferTransfers ?s cid = Some ?b"
    and c': "sessions ?s cid = Some c'"
    and st: "if fired (length (pulls_of cid evs))
                 then stage c' = AWAITING_NEXT_TICK g \<or> stage c' = FETCHING g
                 else stage c' = AWAITING_BARRIER g (subjects s)"
    and tr: "all_in_transit c' = all_in_transit c + (if fired (length (pulls_of cid evs)) then 1 else 0)"
    and tb: "count_list (trace c') (Debug D3b_started_sending_all)
                 = count_list (trace c) (Debug D3b_started_sending_all)
                   + (if fired (length (pulls_of cid evs)) then 1 else 0)"
    and nt: "notified c' = Suc (notified c)"
    by blast
  show ?case
    unfolding run_snoc
    using b c' st tr tb nt ne
    by (cases e)
       (auto simp: step_maps tick_session_def start_fetch_def fired_def count_defs
             split: option.splits stage.splits if_splits)
qed

text \<open>
  When the pulls of a cycle ask for each buffer name once and for active names only,
  a pipeline that has passed the barrier has had every active buffer pulled.
\<close>

lemma distinct_pulls_cover:
  assumes "distinct ns" "set ns \<subseteq> set bufs" "length bufs \<le> length ns"
  shows "set ns = set bufs"
proof -
  have "card (set bufs) \<le> length bufs" by (rule card_length)
  also have "\<dots> \<le> length ns" by fact
  also have "\<dots> = card (set ns)" using assms(1) by (simp add: distinct_card)
  finally show ?thesis
    using assms(2) by (simp add: card_seteq)
qed

lemma passed_barrier_means_fully_pulled:
  assumes "sessions s cid = Some c" and "filter (fetched_for cid) evs = []"
    and "distinct (pulls_of cid evs)" and "set (pulls_of cid evs) \<subseteq> set (activeBuffers c)"
    and "sessions (run (notifying cid g v s) evs) cid = Some c'"
    and "stage c' \<noteq> AWAITING_BARRIER g (subjects s)"
  shows "set (pulls_of cid evs) = set (activeBuffers c)"
proof -
  from cycle_run [OF assms(1,2), of g v] assms(5,6)
  have "length (activeBuffers c) \<le> length (pulls_of cid evs)"
    by (auto split: if_splits)
  then show ?thesis
    using assms(3,4) by (rule distinct_pulls_cover [rotated 2])
qed

lemma vbo_request_leaves_other_clients:
  "cid' \<noteq> cid \<Longrightarrow>
     lastCompressedVbos (step s (Vbo_request cid n)) cid' = lastCompressedVbos s cid'
     \<and> finishBufferTransfers (step s (Vbo_request cid n)) cid' = finishBufferTransfers s cid'
     \<and> sessions (step s (Vbo_request cid n)) cid' = sessions s cid'"
  by (simp add: barriers_vbo_request sessions_vbo_request split: option.splits)

section \<open>The claims\<close>

subsection \<open>The Tick Broadcaster\<close>




subsection \<open>The Ready Latch\<close>




text \<open>The trace of the client in that run.\<close>

lemma two_sets_trace:
  "map_option trace
     (sessions
        (run init [Connection ''a'' [''position'', ''color''] [], Tick 1,
                   Fetched ''a'' position_color,
                   Vbo_request ''a'' ''position'', Vbo_request ''a'' ''position'',
                   Received_buffers ''a'', Tick 2, Fetched ''a'' position_color]) ''a'')
     = Some [Debug D1_Prefetch_VBOs, FetchData 1 [''position'', ''color''] [],
             Debug D2_Waiting_for_client, Debug D2b_Client_ready, Debug D3_tell_client,
             Emit_vbo_update [(''position'', 1), (''color'', 1)] [(''points'', 1)],
             Debug (D3a_sending_a_buffer ''position''),
             Debug (D3a_sending_a_buffer ''position''),
             Debug D3b_started_sending_all, Debug D3c_All_in_transit,
             Debug D4_Wait_for_next_anim_step, Debug D4b_next_ready,
             Debug D1_Prefetch_VBOs, FetchData 1 [''position'', ''color''] [],
             Debug D2_Waiting_for_client, Debug D2b_Client_ready, Debug D3_tell_client,
             Emit_vbo_update [(''position'', 1), (''color'', 1)] [(''points'', 1)]]"
  by (simp add: handler_defs example_defs)

text \<open>
  When the pulls of a cycle ask for each buffer name once and for active names only, a
  set whose barrier has been passed has been pulled in full
  (\<open>passed_barrier_means_fully_pulled\<close>).
\<close>

subsection \<open>The Completion Barrier\<close>

text \<open>
  C3, as the code has it. Take any events after a stage 3 of a client, up to the
  arrival of its next fetch result: pulls in any order, acknowledgements, ticks, other
  clients. The callback has appended every buffer name it was called with, a repeated
  name included, so its array is the list of the pulls. The subject of the cycle has
  fired (debug line 3b) and the pipeline has gone on (debug line 3c) at most once: once
  if the number of calls has reached the number of active buffer names and that number
  is at least one, and not at all otherwise; which names were pulled and in which order
  plays no part.
\<close>

theorem barrier_fires_on_expected_record_calls:
  assumes "sessions s cid = Some c" and "filter (fetched_for cid) evs = []"
  shows "\<exists>b c'. finishBufferTransfers (run (notifying cid g v s) evs) cid = Some b
          \<and> transferredBuffers b = pulls_of cid evs
          \<and> sessions (run (notifying cid g v s) evs) cid = Some c'
          \<and> count_list (trace c') (Debug D3b_started_sending_all) =
              count_list (trace c) (Debug D3b_started_sending_all) +
              (if 1 \<le> length (activeBuffers c)
                  \<and> length (activeBuffers c) \<le> length (pulls_of cid evs)
               then 1 else 0)
          \<and> all_in_transit c' = all_in_transit c +
              (if 1 \<le> length (activeBuffers c)
                  \<and> length (activeBuffers c) \<le> length (pulls_of cid evs)
               then 1 else 0)
          \<and> (stage c' = AWAITING_BARRIER g (subjects s)) =
              (length (activeBuffers c) = 0
               \<or> length (pulls_of cid evs) < length (activeBuffers c))"
  using cycle_run [OF assms, of g v] by (auto simp: Suc_le_eq split: if_splits)

theorem barrier_fires_on_expected_record_calls_witness:
  "\<exists>c b c'. sessions (run init [Connection ''a'' [''position'', ''color''] [], Tick 1]) ''a'' = Some c
      \<and> length (activeBuffers c) = 2
      \<and> filter (fetched_for ''a'')
           [Vbo_request ''a'' ''color'', Received_buffers ''a'', Vbo_request ''a'' ''position'',
            Tick 2, Vbo_request ''a'' ''color''] = []
      \<and> finishBufferTransfers
           (run (notifying ''a'' 1 position_color
                   (run init [Connection ''a'' [''position'', ''color''] [], Tick 1]))
                [Vbo_request ''a'' ''color'', Received_buffers ''a'', Vbo_request ''a'' ''position'',
                 Tick 2, Vbo_request ''a'' ''color'']) ''a'' = Some b
      \<and> transferredBuffers b = [''color'', ''position'', ''color'']
      \<and> sessions
           (run (notifying ''a'' 1 position_color
                   (run init [Connection ''a'' [''position'', ''color''] [], Tick 1]))
                [Vbo_request ''a'' ''color'', Received_buffers ''a'', Vbo_request ''a'' ''position'',
                 Tick 2, Vbo_request ''a'' ''color'']) ''a'' = Some c'
      \<and> all_in_transit c' = 1
      \<and> count_list (trace c') (Debug D3b_started_sending_all) = 1
      \<and> stage c' \<noteq> AWAITING_BARRIER 1 0"
proof -
  let ?s = "run init [Connection ''a'' [''position'', ''color''] [], Tick 1]"
  let ?evs = "[Vbo_request ''a'' ''color'', Received_buffers ''a'', Vbo_request ''a'' ''position'',
               Tick 2, Vbo_request ''a'' ''color'']"
  obtain c where c: "sessions ?s ''a'' = Some c"
    and l: "length (activeBuffers c) = 2" "all_in_transit c = 0"
           "count_list (trace c) (Debug D3b_started_sending_all) = 0"
    by (simp add: handler_defs count_defs)
  have k: "subjects ?s = 0"
    by (simp add: handler_defs)
  have nf: "filter (fetched_for ''a'') ?evs = []" and p: "pulls_of ''a'' ?evs = [''color'', ''position'', ''color'']"
    by simp_all
  from barrier_fires_on_expected_record_calls [OF c nf, of 1 position_color]
  show ?thesis using c l k nf p by auto
qed

text \<open>
  C3 as stated fails: with the active buffers \<open>position\<close> and \<open>color\<close>, two pulls of
  \<open>position\<close> count as two and let the pipeline pass the barrier, although one distinct
  name has been recorded and two are expected.
\<close>

theorem barrier_counts_repeated_name:
  "map_option transferredBuffers
     (finishBufferTransfers
        (run init [Connection ''a'' [''position'', ''color''] [], Tick 1,
                   Fetched ''a'' position_color,
                   Vbo_request ''a'' ''position'', Vbo_request ''a'' ''position'']) ''a'')
     = Some [''position'', ''position'']
   \<and> map_option stage
       (sessions
          (run init [Connection ''a'' [''position'', ''color''] [], Tick 1,
                     Fetched ''a'' position_color,
                     Vbo_request ''a'' ''position'', Vbo_request ''a'' ''position'']) ''a'')
     = Some (AWAITING_NEXT_TICK 1)
   \<and> map_option all_in_transit
       (sessions
          (run init [Connection ''a'' [''position'', ''color''] [], Tick 1,
                     Fetched ''a'' position_color,
                     Vbo_request ''a'' ''position'', Vbo_request ''a'' ''position'']) ''a'')
     = Some 1
   \<and> card (set [''position'', ''position'']) = 1
   \<and> length [''position'', ''color''] = 2"
  by (simp add: handler_defs example_defs count_defs)

text \<open>
  C6, as the code has it. Stage 3 stores a callback whose array is empty and whose
  expected count is the number of the session's active buffer names. After any events
  up to the arrival of the client's next fetch result, the received count is the number
  of pulls handled for the client, with no upper bound, and the expected count is as
  it was.
\<close>

theorem barrier_reset_at_notifying:
  assumes "sessions s cid = Some c" and "filter (fetched_for cid) evs = []"
  shows "finishBufferTransfers (notifying cid g v s) cid =
           Some \<lparr>transferredBuffers = [], closureActiveBuffers = activeBuffers c,
                 sendingAllBuffers = subjects s\<rparr>
       \<and> (\<exists>b. finishBufferTransfers (run (notifying cid g v s) evs) cid = Some b
              \<and> length (transferredBuffers b) = length (pulls_of cid evs)
              \<and> length (closureActiveBuffers b) = length (activeBuffers c))"
  using cycle_run [OF assms, of g v] assms(1)
  by (simp add: barriers_notifying)

theorem barrier_reset_at_notifying_witness:
  "\<exists>c b. sessions (run init [Connection ''a'' [''position''] [], Tick 1,
                             Fetched ''a'' position_only, Vbo_request ''a'' ''position'',
                             Vbo_request ''a'' ''position'']) ''a'' = Some c
      \<and> activeBuffers c = [''position'']
      \<and> filter (fetched_for ''a'')
           [Vbo_request ''a'' ''position'', Tick 2, Vbo_request ''a'' ''position''] = []
      \<and> finishBufferTransfers
          (notifying ''a'' 1 position_only
            (run init [Connection ''a'' [''position''] [], Tick 1,
                       Fetched ''a'' position_only, Vbo_request ''a'' ''position'',
                       Vbo_request ''a'' ''position''])) ''a''
          = Some \<lparr>transferredBuffers = [], closureActiveBuffers = [''position''],
                  sendingAllBuffers = 1\<rparr>
      \<and> finishBufferTransfers
          (run (notifying ''a'' 1 position_only
                  (run init [Connection ''a'' [''position''] [], Tick 1,
                             Fetched ''a'' position_only, Vbo_request ''a'' ''position'',
                             Vbo_request ''a'' ''position'']))
               [Vbo_request ''a'' ''position'', Tick 2, Vbo_request ''a'' ''position'']) ''a''
          = Some b
      \<and> length (transferredBuffers b) = 2 \<and> length (closureActiveBuffers b) = 1"
proof -
  let ?s = "run init [Connection ''a'' [''position''] [], Tick 1,
                      Fetched ''a'' position_only, Vbo_request ''a'' ''position'',
                      Vbo_request ''a'' ''position'']"
  let ?evs = "[Vbo_request ''a'' ''position'', Tick 2, Vbo_request ''a'' ''position'']"
  obtain c where c: "sessions ?s ''a'' = Some c" and a: "activeBuffers c = [''position'']"
    by (simp add: handler_defs example_defs)
  have k: "subjects ?s = 1"
    by (simp add: handler_defs example_defs)
  have nf: "filter (fetched_for ''a'') ?evs = []" and p: "pulls_of ''a'' ?evs = [''position'', ''position'']"
    by simp_all
  from barrier_reset_at_notifying [OF c nf, of 1 position_only]
  show ?thesis using c a k nf p by auto
qed

text \<open>
  C6 as stated fails: with one active buffer, a second pull in the same cycle (one
  \<^verbatim>\<open>vbo_update\<close> so far) brings the received count to 2 against an expected count of 1.
\<close>

theorem received_exceeds_expected:
  "map_option (\<lambda>b. (length (transferredBuffers b), length (closureActiveBuffers b)))
     (finishBufferTransfers
        (run init [Connection ''a'' [''position''] [], Tick 1, Fetched ''a'' position_only,
                   Vbo_request ''a'' ''position'', Vbo_request ''a'' ''position'']) ''a'')
     = Some (2, 1)
   \<and> map_option notified
       (sessions
          (run init [Connection ''a'' [''position''] [], Tick 1, Fetched ''a'' position_only,
                     Vbo_request ''a'' ''position'', Vbo_request ''a'' ''position'']) ''a'')
     = Some 1"
  by (simp add: handler_defs example_defs count_defs)

text \<open>
  C10. \<^verbatim>\<open>finishBufferTransfers\<close> holds at most one callback per client id. In a reachable
  state, a step that runs stage 3 for a client puts a new callback there, with an empty
  array and a subject that did not exist before, whatever was stored; every stored
  callback belongs to an earlier subject; a pipeline waiting for its barrier waits on the
  subject of the stored callback. A pull for the client, whatever buffer name it asks
  for and whichever Buffer Set the requester had in mind, appends to the array of the
  stored callback, and no other step touches the entry.
\<close>

theorem pulls_count_on_latest_barrier:
  assumes "sessions (run init evs) cid = Some c"
      and "sessions (step (run init evs) e) cid = Some c'"
  shows "(notified c' \<noteq> notified c \<longrightarrow>
            finishBufferTransfers (step (run init evs) e) cid =
              Some \<lparr>transferredBuffers = [], closureActiveBuffers = activeBuffers c,
                    sendingAllBuffers = subjects (run init evs)\<rparr>
            \<and> (\<exists>g. stage c' = AWAITING_BARRIER g (subjects (run init evs))))
       \<and> (\<forall>b. finishBufferTransfers (run init evs) cid = Some b \<longrightarrow>
              sendingAllBuffers b < subjects (run init evs))
       \<and> (\<forall>g k. stage c = AWAITING_BARRIER g k \<longrightarrow>
              (\<exists>b. finishBufferTransfers (run init evs) cid = Some b \<and> sendingAllBuffers b = k))
       \<and> (\<forall>n b. e = Vbo_request cid n \<and> finishBufferTransfers (run init evs) cid = Some b \<longrightarrow>
              finishBufferTransfers (step (run init evs) e) cid =
                Some (b\<lparr>transferredBuffers := transferredBuffers b @ [n]\<rparr>))
       \<and> (notified c' = notified c \<and> (\<forall>n. e \<noteq> Vbo_request cid n) \<longrightarrow>
              finishBufferTransfers (step (run init evs) e) cid =
                finishBufferTransfers (run init evs) cid)"
proof (intro conjI allI impI)
  assume "notified c' \<noteq> notified c"
  then show "finishBufferTransfers (step (run init evs) e) cid =
              Some \<lparr>transferredBuffers = [], closureActiveBuffers = activeBuffers c,
                    sendingAllBuffers = subjects (run init evs)\<rparr>"
    and "\<exists>g. stage c' = AWAITING_BARRIER g (subjects (run init evs))"
    using notify_step [OF assms] by blast+
next
  have inv: "barrier_inv (run init evs)"
    by (rule barrier_inv_run [OF barrier_inv_init])
  { fix b assume "finishBufferTransfers (run init evs) cid = Some b"
    then show "sendingAllBuffers b < subjects (run init evs)"
      using inv by (simp add: barrier_inv_def) }
  { fix g k assume "stage c = AWAITING_BARRIER g k"
    then show "\<exists>b. finishBufferTransfers (run init evs) cid = Some b \<and> sendingAllBuffers b = k"
      using inv assms(1) unfolding barrier_inv_def by blast }
next
  fix n b
  assume "e = Vbo_request cid n \<and> finishBufferTransfers (run init evs) cid = Some b"
  then show "finishBufferTransfers (step (run init evs) e) cid =
                Some (b\<lparr>transferredBuffers := transferredBuffers b @ [n]\<rparr>)"
    by (simp add: barriers_vbo_request)
next
  assume a: "notified c' = notified c \<and> (\<forall>n. e \<noteq> Vbo_request cid n)"
  then show "finishBufferTransfers (step (run init evs) e) cid =
                finishBufferTransfers (run init evs) cid"
    using barrier_step [OF assms] by (cases e) auto
qed

theorem pulls_count_on_latest_barrier_witness:
  "(\<exists>c c'. sessions (run init [Connection ''a'' [''position''] [], Tick 1,
                               Fetched ''a'' position_only, Vbo_request ''a'' ''position'',
                               Received_buffers ''a'', Tick 2]) ''a'' = Some c
       \<and> sessions (step (run init [Connection ''a'' [''position''] [], Tick 1,
                               Fetched ''a'' position_only, Vbo_request ''a'' ''position'',
                               Received_buffers ''a'', Tick 2])
                      (Fetched ''a'' position_only)) ''a'' = Some c'
       \<and> notified c = 1 \<and> notified c' = 2
       \<and> finishBufferTransfers
            (run init [Connection ''a'' [''position''] [], Tick 1,
                       Fetched ''a'' position_only, Vbo_request ''a'' ''position'',
                       Received_buffers ''a'', Tick 2]) ''a''
          = Some \<lparr>transferredBuffers = [''position''], closureActiveBuffers = [''position''],
                  sendingAllBuffers = 0\<rparr>
       \<and> finishBufferTransfers
            (step (run init [Connection ''a'' [''position''] [], Tick 1,
                             Fetched ''a'' position_only, Vbo_request ''a'' ''position'',
                             Received_buffers ''a'', Tick 2])
                  (Fetched ''a'' position_only)) ''a''
          = Some \<lparr>transferredBuffers = [], closureActiveBuffers = [''position''],
                  sendingAllBuffers = 1\<rparr>)
   \<and> (\<exists>c. sessions (run init [Connection ''a'' [''position''] [], Tick 1,
                              Fetched ''a'' position_only, Vbo_request ''a'' ''position'',
                              Received_buffers ''a'', Tick 2, Fetched ''a'' position_only]) ''a''
             = Some c
       \<and> stage c = AWAITING_BARRIER 1 1
       \<and> finishBufferTransfers
            (step (run init [Connection ''a'' [''position''] [], Tick 1,
                             Fetched ''a'' position_only, Vbo_request ''a'' ''position'',
                             Received_buffers ''a'', Tick 2, Fetched ''a'' position_only])
                  (Vbo_request ''a'' ''color'')) ''a''
          = Some \<lparr>transferredBuffers = [''color''], closureActiveBuffers = [''position''],
                  sendingAllBuffers = 1\<rparr>)"
proof (intro conjI)
  let ?evs = "[Connection ''a'' [''position''] [], Tick 1,
               Fetched ''a'' position_only, Vbo_request ''a'' ''position'',
               Received_buffers ''a'', Tick 2]"
  obtain c where c: "sessions (run init ?evs) ''a'' = Some c"
    and n: "notified c = 1" and a: "activeBuffers c = [''position'']"
    by (simp add: handler_defs example_defs count_defs)
  obtain c' where c': "sessions (step (run init ?evs) (Fetched ''a'' position_only)) ''a'' = Some c'"
    and n': "notified c' = 2"
    by (simp add: handler_defs example_defs count_defs)
  have k: "subjects (run init ?evs) = 1"
    by (simp add: handler_defs example_defs)
  have old: "finishBufferTransfers (run init ?evs) ''a''
          = Some \<lparr>transferredBuffers = [''position''], closureActiveBuffers = [''position''],
                  sendingAllBuffers = 0\<rparr>"
    by (simp add: handler_defs example_defs)
  from pulls_count_on_latest_barrier [OF c c'] n n' a k
  have "finishBufferTransfers (step (run init ?evs) (Fetched ''a'' position_only)) ''a''
          = Some \<lparr>transferredBuffers = [], closureActiveBuffers = [''position''],
                  sendingAllBuffers = 1\<rparr>"
    by simp
  with c c' n n' old
  show "\<exists>c c'. sessions (run init ?evs) ''a'' = Some c
       \<and> sessions (step (run init ?evs) (Fetched ''a'' position_only)) ''a'' = Some c'
       \<and> notified c = 1 \<and> notified c' = 2
       \<and> finishBufferTransfers (run init ?evs) ''a''
          = Some \<lparr>transferredBuffers = [''position''], closureActiveBuffers = [''position''],
                  sendingAllBuffers = 0\<rparr>
       \<and> finishBufferTransfers (step (run init ?evs) (Fetched ''a'' position_only)) ''a''
          = Some \<lparr>transferredBuffers = [], closureActiveBuffers = [''position''],
                  sendingAllBuffers = 1\<rparr>"
    by blast
next
  let ?evs = "[Connection ''a'' [''position''] [], Tick 1,
               Fetched ''a'' position_only, Vbo_request ''a'' ''position'',
               Received_buffers ''a'', Tick 2, Fetched ''a'' position_only]"
  obtain c where c: "sessions (run init ?evs) ''a'' = Some c"
    and st: "stage c = AWAITING_BARRIER 1 1"
    by (simp add: handler_defs example_defs)
  obtain c' where c': "sessions (step (run init ?evs) (Vbo_request ''a'' ''color'')) ''a'' = Some c'"
    by (simp add: handler_defs example_defs)
  note t = pulls_count_on_latest_barrier [OF c c']
  from t st obtain b where b: "finishBufferTransfers (run init ?evs) ''a'' = Some b"
    and kb: "sendingAllBuffers b = 1"
    by blast
  have b': "b = \<lparr>transferredBuffers = [], closureActiveBuffers = [''position''],
                  sendingAllBuffers = 1\<rparr>"
    using b by (simp add: handler_defs example_defs)
  from t b have "finishBufferTransfers (step (run init ?evs) (Vbo_request ''a'' ''color'')) ''a''
          = Some (b\<lparr>transferredBuffers := transferredBuffers b @ [''color'']\<rparr>)"
    by blast
  with c st b'
  show "\<exists>c. sessions (run init ?evs) ''a'' = Some c
       \<and> stage c = AWAITING_BARRIER 1 1
       \<and> finishBufferTransfers (step (run init ?evs) (Vbo_request ''a'' ''color'')) ''a''
          = Some \<lparr>transferredBuffers = [''color''], closureActiveBuffers = [''position''],
                  sendingAllBuffers = 1\<rparr>"
    by simp
qed

subsection \<open>The data channel endpoint\<close>

text \<open>
  C4 fails on the code. A client connects and disconnects before its pipeline has
  reached stage 3, so neither map has an entry for it; a pull for it then arrives. The
  \<^verbatim>\<open>try\<close> block logs the failed lookup, and line 84, outside the \<^verbatim>\<open>try\<close>, calls
  \<^verbatim>\<open>undefined\<close>: the handler throws a TypeError, whatever the runtime.
\<close>

theorem vbo_handler_throws_without_callback:
  "lastCompressedVbos (run init [Connection ''a'' [''position'', ''color''] [], Disconnect ''a'']) ''a''
     = None
   \<and> snd (vbo_handler rt ''a'' ''color''
            (run init [Connection ''a'' [''position'', ''color''] [], Disconnect ''a'']))
     = ([WriteHead 200 vbo_headers, ConsoleError TypeError], Some TypeError)"
  by (simp add: handler_defs)

text \<open>
  A pull for a buffer name the cached Buffer Set does not have is answered with status
  200 and no body, and nothing is logged.
\<close>

lemma unknown_buffer_name_is_not_logged:
  "snd (vbo_handler rt ''a'' ''no such buffer''
         (run init [Connection ''a'' [''position''] [], Tick 1, Fetched ''a'' position_only]))
     = ([WriteHead 200 vbo_headers, End Undefined,
         Call_finishBufferTransfers ''a'' ''no such buffer''], None)"
  by (simp add: handler_defs example_defs)

text \<open>
  An id that names a property of \<^verbatim>\<open>Object.prototype\<close> is resolved there: with no
  entry of its own, \<open>constructor\<close> reads and calls the inherited function, and the
  handler returns when the runtime lets both through.
\<close>

lemma inherited_id_is_resolved:
  "inherited_end rt [''constructor'', ''color''] = None \<Longrightarrow>
   inherited_call rt ''constructor'' ''color'' = None \<Longrightarrow>
   vbo_handler rt ''constructor'' ''color'' init =
     (init,
      [WriteHead 200 vbo_headers, End (Inherited [''constructor'', ''color'']),
       Call_finishBufferTransfers ''constructor'' ''color''], None)"
  by (simp add: vbo_handler_def vbo_respond_def cached_def object_prototype_keys_def init_def)

text \<open>
  C5, as the code has it. In every reachable state a client that has been sent
  \<^verbatim>\<open>vbo_update\<close> at least once has a Completion Barrier, connected or not. For a client
  that has one, every pull returns normally, whether the cache lookup succeeds or fails
  and whatever the runtime; the call of the barrier's callback is the last thing the
  handler does, after the response head and after the body or the error log; and the
  callback has recorded the buffer name.
\<close>

theorem barrier_notified_after_response:
  "(sessions (run init evs) cid = Some c \<and> 0 < notified c \<longrightarrow>
      finishBufferTransfers (run init evs) cid \<noteq> None)
   \<and> (finishBufferTransfers s cid = Some b \<longrightarrow>
        snd (vbo_handler rt cid n s) =
          (vbo_respond rt cid n s @ [Call_finishBufferTransfers cid n], None)
        \<and> vbo_respond rt cid n s \<noteq> []
        \<and> Call_finishBufferTransfers cid n \<notin> set (vbo_respond rt cid n s)
        \<and> finishBufferTransfers (fst (vbo_handler rt cid n s)) cid =
            Some (b\<lparr>transferredBuffers := transferredBuffers b @ [n]\<rparr>))"
proof (intro conjI impI)
  assume "sessions (run init evs) cid = Some c \<and> 0 < notified c"
  then show "finishBufferTransfers (run init evs) cid \<noteq> None"
    using notified_inv_run [OF notified_inv_init, of evs] unfolding notified_inv_def by blast
next
  assume b: "finishBufferTransfers s cid = Some b"
  then show "snd (vbo_handler rt cid n s) =
          (vbo_respond rt cid n s @ [Call_finishBufferTransfers cid n], None)"
    by (simp add: vbo_handler_def Let_def)
  show "vbo_respond rt cid n s \<noteq> []"
    by (simp add: vbo_respond_def)
  show "Call_finishBufferTransfers cid n \<notin> set (vbo_respond rt cid n s)"
    by (simp add: vbo_respond_def split: option.splits sum.splits js_value.splits)
  show "finishBufferTransfers (fst (vbo_handler rt cid n s)) cid =
            Some (b\<lparr>transferredBuffers := transferredBuffers b @ [n]\<rparr>)"
    using b by (simp add: vbo_handler_state barriers_vbo_request)
qed

theorem barrier_notified_after_response_witness:
  "\<forall>rt.
     (\<exists>c. sessions
          (run init [Connection ''a'' [''position'', ''color''] [], Tick 1,
                     Fetched ''a'' position_color, Disconnect ''a'']) ''a'' = Some c
        \<and> notified c = 1)
   \<and> lastCompressedVbos
       (run init [Connection ''a'' [''position'', ''color''] [], Tick 1,
                  Fetched ''a'' position_color, Disconnect ''a'']) ''a'' = None
   \<and> finishBufferTransfers
     (run init [Connection ''a'' [''position'', ''color''] [], Tick 1,
                Fetched ''a'' position_color, Disconnect ''a'']) ''a''
     = Some \<lparr>transferredBuffers = [], closureActiveBuffers = [''position'', ''color''],
             sendingAllBuffers = 0\<rparr>
   \<and> snd (vbo_handler rt ''a'' ''color''
            (run init [Connection ''a'' [''position'', ''color''] [], Tick 1,
                       Fetched ''a'' position_color, Disconnect ''a'']))
     = ([WriteHead 200 vbo_headers, ConsoleError TypeError,
         Call_finishBufferTransfers ''a'' ''color''], None)
   \<and> finishBufferTransfers
       (fst (vbo_handler rt ''a'' ''color''
              (run init [Connection ''a'' [''position'', ''color''] [], Tick 1,
                         Fetched ''a'' position_color, Disconnect ''a'']))) ''a''
     = Some \<lparr>transferredBuffers = [''color''], closureActiveBuffers = [''position'', ''color''],
             sendingAllBuffers = 0\<rparr>"
proof
  fix rt
  let ?evs = "[Connection ''a'' [''position'', ''color''] [], Tick 1,
               Fetched ''a'' position_color, Disconnect ''a'']"
  let ?b = "\<lparr>transferredBuffers = [], closureActiveBuffers = [''position'', ''color''],
             sendingAllBuffers = 0\<rparr>"
  obtain c where c: "sessions (run init ?evs) ''a'' = Some c" and n: "notified c = 1"
    by (simp add: handler_defs example_defs count_defs)
  have m: "lastCompressedVbos (run init ?evs) ''a'' = None"
    by (simp add: handler_defs example_defs)
  note t = barrier_notified_after_response [of ?evs "''a''" c "run init ?evs" ?b rt "''color''"]
  from t c n have "finishBufferTransfers (run init ?evs) ''a'' \<noteq> None"
    by simp
  then have b: "finishBufferTransfers (run init ?evs) ''a'' = Some ?b"
    by (simp add: handler_defs example_defs)
  have r: "vbo_respond rt ''a'' ''color'' (run init ?evs)
             = [WriteHead 200 vbo_headers, ConsoleError TypeError]"
    using m by (simp add: vbo_respond_def cached_def object_prototype_keys_def)
  from t b r c n m
  show "(\<exists>c. sessions (run init ?evs) ''a'' = Some c \<and> notified c = 1)
   \<and> lastCompressedVbos (run init ?evs) ''a'' = None
   \<and> finishBufferTransfers (run init ?evs) ''a'' = Some ?b
   \<and> snd (vbo_handler rt ''a'' ''color'' (run init ?evs))
     = ([WriteHead 200 vbo_headers, ConsoleError TypeError,
         Call_finishBufferTransfers ''a'' ''color''], None)
   \<and> finishBufferTransfers (fst (vbo_handler rt ''a'' ''color'' (run init ?evs))) ''a''
     = Some \<lparr>transferredBuffers = [''color''], closureActiveBuffers = [''position'', ''color''],
             sendingAllBuffers = 0\<rparr>"
    by auto
qed

text \<open>
  C5 as stated fails: a pull for a connected client whose pipeline has not reached
  stage 3 (no tick has been produced yet) finds no callback under the id. The request
  is handled, the cache lookup reads \<^verbatim>\<open>undefined\<close>, and no Completion Barrier is
  notified: none is stored before or after, and the session has logged no transfer.
\<close>

theorem pull_before_first_notifying_notifies_no_barrier:
  "lastCompressedVbos (run init [Connection ''a'' [''position''] []]) ''a'' = Some Map.empty
   \<and> finishBufferTransfers (run init [Connection ''a'' [''position''] []]) ''a'' = None
   \<and> finishBufferTransfers
       (step (run init [Connection ''a'' [''position''] []]) (Vbo_request ''a'' ''position''))
       ''a'' = None
   \<and> map_option trace
       (sessions
          (step (run init [Connection ''a'' [''position''] []]) (Vbo_request ''a'' ''position''))
          ''a'') = Some []"
  by (simp add: handler_defs)

text \<open>
  C9. Whatever the state, the request and the runtime, the first thing the handler does
  to the response is to write the head with status 200 and the success headers, and 200
  is the only status it ever writes: a failed lookup is not answered with an error
  status.
\<close>

theorem vbo_response_head_is_200:
  "(\<exists>rest. fst (snd (vbo_handler rt cid n s)) = WriteHead 200 vbo_headers # rest)
   \<and> statuses (fst (snd (vbo_handler rt cid n s))) = [200]
   \<and> map_of vbo_headers ''Content-Encoding'' = Some ''gzip''
   \<and> map_of vbo_headers ''Content-Type'' = Some ''text/javascript''
   \<and> map_of vbo_headers ''Access-Control-Allow-Origin'' = Some ''*''"
  by (simp add: vbo_handler_def vbo_respond_def vbo_headers_def Let_def
           split: option.splits sum.splits js_value.splits)

theorem vbo_response_head_is_200_witness:
  "\<forall>rt. statuses (fst (snd (vbo_handler rt ''ghost'' ''color'' init))) = [200]
     \<and> statuses (fst (snd (vbo_handler rt ''constructor'' ''__proto__'' init))) = [200]
     \<and> statuses (fst (snd (vbo_handler rt ''a'' ''position''
          (run init [Connection ''a'' [''position''] [], Tick 1, Fetched ''a'' position_only]))))
        = [200]"
proof
  fix rt
  show "statuses (fst (snd (vbo_handler rt ''ghost'' ''color'' init))) = [200]
     \<and> statuses (fst (snd (vbo_handler rt ''constructor'' ''__proto__'' init))) = [200]
     \<and> statuses (fst (snd (vbo_handler rt ''a'' ''position''
          (run init [Connection ''a'' [''position''] [], Tick 1, Fetched ''a'' position_only]))))
        = [200]"
    using vbo_response_head_is_200 [of rt "''ghost''" "''color''" init]
          vbo_response_head_is_200 [of rt "''constructor''" "''__proto__''" init]
          vbo_response_head_is_200 [of rt "''a''" "''position''"
            "run init [Connection ''a'' [''position''] [], Tick 1, Fetched ''a'' position_only]"]
    by simp
qed

subsection \<open>Where the side effects are\<close>

text \<open>
  C7, as the code has it. The Buffer Set is written into the Buffer Cache in stage 1,
  when the fetch result arrives and before the latch is consulted. For a client with a
  session, a step changes its cache entry only if it is its disconnect or the arrival of
  its fetch result in stage 1; stage 3 writes no cache entry; \<^verbatim>\<open>vbo_update\<close> is sent
  only by a step that runs stage 3 and ends waiting for the new barrier; the latch
  changes only in the acknowledgement handler or in stage 2, entered when the fetch
  result arrives; and the stored callback changes only in a step that runs stage 3 or
  in the data channel handler.
\<close>

theorem cache_written_on_fetch_result:
  assumes "sessions s cid = Some c" and "sessions (step s e) cid = Some c'"
  shows "(\<forall>v g. e = Fetched cid v \<and> stage c = FETCHING g \<longrightarrow>
            lastCompressedVbos (step s e) cid = Some (compressed v))
       \<and> (lastCompressedVbos (step s e) cid \<noteq> lastCompressedVbos s cid \<longrightarrow>
            e = Disconnect cid \<or> (\<exists>v g. e = Fetched cid v \<and> stage c = FETCHING g))
       \<and> lastCompressedVbos (notifying cid g' v' s) = lastCompressedVbos s
       \<and> (notified c' \<noteq> notified c \<longrightarrow>
            notified c' = Suc (notified c) \<and> (\<exists>g. stage c' = AWAITING_BARRIER g (subjects s)))
       \<and> (clientReady c' \<noteq> clientReady c \<longrightarrow>
            e = Received_buffers cid
            \<or> (\<exists>v g. e = Fetched cid v \<and> stage c = FETCHING g \<and> clientReady c))
       \<and> (finishBufferTransfers (step s e) cid \<noteq> finishBufferTransfers s cid \<longrightarrow>
            notified c' = Suc (notified c) \<or> (\<exists>n. e = Vbo_request cid n))"
proof (intro conjI allI impI)
  assume a: "finishBufferTransfers (step s e) cid \<noteq> finishBufferTransfers s cid"
  show "notified c' = Suc (notified c) \<or> (\<exists>n. e = Vbo_request cid n)"
  proof (cases "notified c' = notified c")
    case True
    from barrier_step [OF assms True] a show ?thesis
      by (cases e) (auto split: if_splits)
  next
    case False
    then show ?thesis using notify_step [OF assms] by blast
  qed
next
  fix v g
  assume "e = Fetched cid v \<and> stage c = FETCHING g"
  then show "lastCompressedVbos (step s e) cid = Some (compressed v)"
    using assms(1) by (simp add: cache_fetched)
next
  assume "lastCompressedVbos (step s e) cid \<noteq> lastCompressedVbos s cid"
  then show "e = Disconnect cid \<or> (\<exists>v g. e = Fetched cid v \<and> stage c = FETCHING g)"
    using assms(1)
    by (cases e) (auto simp: cache_fetched cache_connection split: option.splits stage.splits if_splits)
next
  show "lastCompressedVbos (notifying cid g' v' s) = lastCompressedVbos s"
    by simp
next
  assume "notified c' \<noteq> notified c"
  then show "notified c' = Suc (notified c)" and "\<exists>g. stage c' = AWAITING_BARRIER g (subjects s)"
    using notify_step [OF assms] by blast+
next
  assume "clientReady c' \<noteq> clientReady c"
  then show "e = Received_buffers cid
            \<or> (\<exists>v g. e = Fetched cid v \<and> stage c = FETCHING g \<and> clientReady c)"
    using assms
    by (cases e)
       (auto simp: step_maps tick_session_def start_fetch_def
             split: option.splits stage.splits if_splits)
qed

theorem cache_written_on_fetch_result_witness:
  "\<exists>c c'. sessions (run init [Connection ''a'' [''position''] [], Tick 1]) ''a'' = Some c
      \<and> stage c = FETCHING 1 \<and> clientReady c \<and> notified c = 0
      \<and> lastCompressedVbos (run init [Connection ''a'' [''position''] [], Tick 1]) ''a''
          = Some Map.empty
      \<and> sessions (step (run init [Connection ''a'' [''position''] [], Tick 1])
                      (Fetched ''a'' position_only)) ''a'' = Some c'
      \<and> lastCompressedVbos (step (run init [Connection ''a'' [''position''] [], Tick 1])
                      (Fetched ''a'' position_only)) ''a'' = Some (compressed position_only)
      \<and> notified c' = 1 \<and> stage c' = AWAITING_BARRIER 1 0 \<and> \<not> clientReady c'"
proof -
  let ?s = "run init [Connection ''a'' [''position''] [], Tick 1]"
  obtain c where c: "sessions ?s ''a'' = Some c"
    and st: "stage c = FETCHING 1" "clientReady c" "notified c = 0"
    by (simp add: handler_defs count_defs)
  obtain c' where c': "sessions (step ?s (Fetched ''a'' position_only)) ''a'' = Some c'"
    and st': "notified c' = 1" "\<not> clientReady c'"
    by (simp add: handler_defs count_defs example_defs)
  have k: "subjects ?s = 0" and m: "lastCompressedVbos ?s ''a'' = Some Map.empty"
    by (simp_all add: handler_defs)
  note t = cache_written_on_fetch_result [OF c c']
  from t st have w: "lastCompressedVbos (step ?s (Fetched ''a'' position_only)) ''a''
      = Some (compressed position_only)"
    by blast
  from t st st' k have "\<exists>g. stage c' = AWAITING_BARRIER g 0"
    by simp
  moreover have "map_option stage (sessions (step ?s (Fetched ''a'' position_only)) ''a'')
     = Some (AWAITING_BARRIER 1 0)"
    by (simp add: handler_defs example_defs)
  ultimately have "stage c' = AWAITING_BARRIER 1 0"
    using c' by simp
  with c st c' st' w m show ?thesis by blast
qed

text \<open>
  C7 as stated fails: a fetch result that arrives while the latch is false is written
  into the Buffer Cache in stage 1, and the pipeline then waits in stage 2 without any
  stage 3 having run for it.
\<close>

theorem fetching_writes_buffer_cache:
  "map_option (\<lambda>c. (stage c, notified c))
     (sessions (run init [Connection ''a'' [''position''] [], Tick 1,
                          Fetched ''a'' position_only, Vbo_request ''a'' ''position'',
                          Tick 2]) ''a'')
     = Some (FETCHING 1, 1)
   \<and> map_option (\<lambda>m. m ''color'')
       (lastCompressedVbos (run init [Connection ''a'' [''position''] [], Tick 1,
                          Fetched ''a'' position_only, Vbo_request ''a'' ''position'',
                          Tick 2]) ''a'')
     = Some None
   \<and> map_option (\<lambda>c. (stage c, notified c))
     (sessions (run init [Connection ''a'' [''position''] [], Tick 1,
                          Fetched ''a'' position_only, Vbo_request ''a'' ''position'',
                          Tick 2, Fetched ''a'' position_color]) ''a'')
     = Some (AWAITING_READY 1 position_color, 1)
   \<and> map_option (\<lambda>m. m ''color'')
       (lastCompressedVbos (run init [Connection ''a'' [''position''] [], Tick 1,
                          Fetched ''a'' position_only, Vbo_request ''a'' ''position'',
                          Tick 2, Fetched ''a'' position_color]) ''a'')
     = Some (Some [2])"
  by (simp add: handler_defs example_defs count_defs)

text \<open>
  C8, as the code has it. A disconnect deletes the Buffer Cache entry of the client and
  changes no cache entry, callback or pipeline of any other client.
\<close>

theorem disconnect_discards_cache_entry:
  "lastCompressedVbos (step s (Disconnect cid)) cid = None
   \<and> (cid' \<noteq> cid \<longrightarrow>
        lastCompressedVbos (step s (Disconnect cid)) cid' = lastCompressedVbos s cid'
        \<and> finishBufferTransfers (step s (Disconnect cid)) cid' = finishBufferTransfers s cid'
        \<and> sessions (step s (Disconnect cid)) cid' = sessions s cid')"
  by simp

theorem disconnect_discards_cache_entry_witness:
  "lastCompressedVbos
     (run init [Connection ''a'' [''position''] [], Connection ''b'' [''position''] [], Tick 1,
                Fetched ''a'' position_only, Fetched ''b'' position_only]) ''a''
     = Some (compressed position_only)
   \<and> lastCompressedVbos
       (step (run init [Connection ''a'' [''position''] [], Connection ''b'' [''position''] [],
                        Tick 1, Fetched ''a'' position_only, Fetched ''b'' position_only])
             (Disconnect ''a'')) ''a'' = None
   \<and> ''b'' \<noteq> ''a''
   \<and> lastCompressedVbos
       (step (run init [Connection ''a'' [''position''] [], Connection ''b'' [''position''] [],
                        Tick 1, Fetched ''a'' position_only, Fetched ''b'' position_only])
             (Disconnect ''a'')) ''b'' = Some (compressed position_only)
   \<and> finishBufferTransfers
       (step (run init [Connection ''a'' [''position''] [], Connection ''b'' [''position''] [],
                        Tick 1, Fetched ''a'' position_only, Fetched ''b'' position_only])
             (Disconnect ''a'')) ''b''
       = Some \<lparr>transferredBuffers = [], closureActiveBuffers = [''position''],
               sendingAllBuffers = 1\<rparr>"
proof -
  let ?s = "run init [Connection ''a'' [''position''] [], Connection ''b'' [''position''] [],
                      Tick 1, Fetched ''a'' position_only, Fetched ''b'' position_only]"
  have ne: "''b'' \<noteq> ''a''" by simp
  have a: "lastCompressedVbos ?s ''a'' = Some (compressed position_only)"
    and b: "lastCompressedVbos ?s ''b'' = Some (compressed position_only)"
    and f: "finishBufferTransfers ?s ''b''
       = Some \<lparr>transferredBuffers = [], closureActiveBuffers = [''position''],
               sendingAllBuffers = 1\<rparr>"
    by (simp_all add: handler_defs example_defs)
  from disconnect_discards_cache_entry [of ?s "''a''" "''b''"] ne a b f
  show ?thesis by simp
qed

text \<open>
  C8 as stated fails. After a disconnect in stage 3 the callback of the client is still
  stored and its pipeline still waits for the barrier. After a disconnect during the
  fetch, the fetch result still arrives in the pipeline: \<^verbatim>\<open>vbo_update\<close> is emitted
  on the closed socket and the cache entry is back.
\<close>

theorem disconnect_keeps_barrier_and_pipeline:
  "finishBufferTransfers
     (run init [Connection ''a'' [''position''] [], Tick 1, Fetched ''a'' position_only,
                Disconnect ''a'']) ''a''
     = Some \<lparr>transferredBuffers = [], closureActiveBuffers = [''position''],
             sendingAllBuffers = 0\<rparr>
   \<and> map_option stage
       (sessions (run init [Connection ''a'' [''position''] [], Tick 1,
                            Fetched ''a'' position_only, Disconnect ''a'']) ''a'')
     = Some (AWAITING_BARRIER 1 0)
   \<and> map_option trace
       (sessions (run init [Connection ''a'' [''position''] [], Tick 1, Disconnect ''a'']) ''a'')
     = Some [Debug D1_Prefetch_VBOs, FetchData 1 [''position''] []]
   \<and> map_option trace
       (sessions (run init [Connection ''a'' [''position''] [], Tick 1, Disconnect ''a'',
                            Fetched ''a'' position_only]) ''a'')
     = Some [Debug D1_Prefetch_VBOs, FetchData 1 [''position''] [],
             Debug D2_Waiting_for_client, Debug D2b_Client_ready, Debug D3_tell_client,
             Emit_vbo_update [(''position'', 1)] [(''points'', 1)]]
   \<and> map_option (\<lambda>m. m ''position'')
       (lastCompressedVbos (run init [Connection ''a'' [''position''] [], Tick 1,
                                      Disconnect ''a'', Fetched ''a'' position_only]) ''a'')
     = Some (Some [1])"
  by (simp add: handler_defs example_defs)

end
